theory Spec2Isabelle
  imports Complex_Main
begin

section \<open>Data model\<close>

text \<open>
  The controller of \<^verbatim>\<open>AR-Hand-Gesture-3D-Cube.py\<close> is modelled by explicit state
  passing. Python floats (and the integer literals mixed with them) are idealised as
  real numbers; where a property depends on rounding, the double-precision evaluation
  of the source line is given separately (\<open>round64\<close>). The camera frame,
  the drawing calls and the detector are external; the detector's per-frame output
  \<^verbatim>\<open>results\<close> is the input of \<open>process_hands\<close>.
\<close>

datatype py_error = IndexError

text \<open>A detector keypoint (\<^verbatim>\<open>.x\<close>, \<^verbatim>\<open>.y\<close>, \<^verbatim>\<open>.z\<close>).\<close>

record normalized_landmark =
  lx :: real
  ly :: real
  lz :: real

text \<open>\<^verbatim>\<open>handedness.classification[0].label\<close>: only the label of an entry is read.\<close>

record classification_t =
  label :: string

record handedness_t =
  classification :: "classification_t list"

record hand_landmarks_t =
  landmark :: "normalized_landmark list"

text \<open>The detector result: each attribute is \<^verbatim>\<open>None\<close> or a list.\<close>

record results_t =
  multi_hand_landmarks :: "hand_landmarks_t list option"
  multi_handedness :: "handedness_t list option"

text \<open>The attributes that \<^verbatim>\<open>__init__\<close> sets and \<^verbatim>\<open>process_hands\<close> reads or writes.\<close>

record controller =
  scale :: real
  smooth_factor :: real
  target_scale :: real
  control_hand :: "string option"
  rotation_hand :: "string option"
  rotation_x :: real
  rotation_y :: real
  target_rotation_x :: real
  target_rotation_y :: real
  rotation_x_sensitivity :: real
  rotation_y_sensitivity :: real
  scale_min :: real
  scale_max :: real

definition init_controller :: controller where
  "init_controller =
     \<lparr> scale = 2.0,
       smooth_factor = 0.15,
       target_scale = 2.0,
       control_hand = None,
       rotation_hand = None,
       rotation_x = 20,
       rotation_y = 30,
       target_rotation_x = 20,
       target_rotation_y = 30,
       rotation_x_sensitivity = 180,
       rotation_y_sensitivity = 360,
       scale_min = 0.5,
       scale_max = 5.0 \<rparr>"

section \<open>Operations\<close>

text \<open>Indexing a sequence with a constant non-negative index; out of range raises.\<close>

definition getitem :: "'a list \<Rightarrow> nat \<Rightarrow> py_error + 'a" where
  "getitem xs i = (if i < length xs then Inr (xs ! i) else Inl IndexError)"

text \<open>The elements of a list display \<^verbatim>\<open>[xs[i], xs[j], ...]\<close>, evaluated left to right.\<close>

fun getitems :: "'a list \<Rightarrow> nat list \<Rightarrow> py_error + 'a list" where
  "getitems xs [] = Inr []"
| "getitems xs (i # js) =
     (case getitem xs i of
        Inl e \<Rightarrow> Inl e
      | Inr v \<Rightarrow> (case getitems xs js of Inl e \<Rightarrow> Inl e | Inr vs \<Rightarrow> Inr (v # vs)))"

definition calculate_palm_openness :: "normalized_landmark list \<Rightarrow> py_error + real" where
  "calculate_palm_openness hand_landmarks =
     (case getitem hand_landmarks 0 of
        Inl e \<Rightarrow> Inl e
      | Inr palm_center \<Rightarrow>
          (case getitems hand_landmarks [4, 8, 12, 16, 20] of
             Inl e \<Rightarrow> Inl e
           | Inr fingertips \<Rightarrow>
               (let total_distance =
                      foldl (\<lambda>total tip.
                               let dx = lx tip - lx palm_center;
                                   dy = ly tip - ly palm_center;
                                   distance = sqrt (dx\<^sup>2 + dy\<^sup>2)
                               in total + distance) 0 fingertips;
                    avg_distance = total_distance / real (length fingertips);
                    min_distance = 0.10;
                    max_distance = 0.40;
                    openness = (avg_distance - min_distance) / (max_distance - min_distance)
                in Inr (max 0.0 (min 1.0 openness)))))"

definition smooth_value :: "real \<Rightarrow> real \<Rightarrow> real \<Rightarrow> real" where
  "smooth_value current target factor = current + (target - current) * factor"

definition get_hand_position :: "normalized_landmark list \<Rightarrow> py_error + real \<times> real" where
  "get_hand_position hand_landmarks =
     (case getitem hand_landmarks 0 of
        Inl e \<Rightarrow> Inl e
      | Inr wrist \<Rightarrow> Inr (lx wrist, ly wrist))"

definition update_rotation_from_hand ::
  "controller \<Rightarrow> normalized_landmark list \<Rightarrow> py_error + controller" where
  "update_rotation_from_hand self hand_landmarks =
     (case get_hand_position hand_landmarks of
        Inl e \<Rightarrow> Inl e
      | Inr (x, y) \<Rightarrow>
          Inr (self\<lparr> target_rotation_y := (x - 0.5) * rotation_y_sensitivity self,
                     target_rotation_x := (0.5 - y) * rotation_x_sensitivity self \<rparr>))"

definition update_scale_from_palm ::
  "controller \<Rightarrow> normalized_landmark list \<Rightarrow> py_error + controller" where
  "update_scale_from_palm self hand_landmarks =
     (case calculate_palm_openness hand_landmarks of
        Inl e \<Rightarrow> Inl e
      | Inr openness \<Rightarrow>
          Inr (self\<lparr> target_scale :=
                       scale_min self + (openness * (scale_max self - scale_min self)) \<rparr>))"

text \<open>
  The \<^verbatim>\<open>for\<close> loop of \<^verbatim>\<open>process_hands\<close> over the zipped detector lists, threading
  the two local variables \<^verbatim>\<open>left_hand\<close> and \<^verbatim>\<open>right_hand\<close>.
\<close>

fun assign_hands ::
  "(hand_landmarks_t \<times> handedness_t) list \<Rightarrow>
   normalized_landmark list option \<Rightarrow> normalized_landmark list option \<Rightarrow>
   py_error + (normalized_landmark list option \<times> normalized_landmark list option)" where
  "assign_hands [] left_hand right_hand = Inr (left_hand, right_hand)"
| "assign_hands ((hand_landmarks, handedness) # rest) left_hand right_hand =
     (case getitem (classification handedness) 0 of
        Inl e \<Rightarrow> Inl e
      | Inr c \<Rightarrow>
          if label c = ''Left'' then
            assign_hands rest (Some (landmark hand_landmarks)) right_hand
          else if label c = ''Right'' then
            assign_hands rest left_hand (Some (landmark hand_landmarks))
          else assign_hands rest left_hand right_hand)"

text \<open>Truth value of an attribute that is \<^verbatim>\<open>None\<close> or a sequence.\<close>

definition truthy :: "'a list option \<Rightarrow> bool" where
  "truthy v = (case v of None \<Rightarrow> False | Some xs \<Rightarrow> xs \<noteq> [])"

text \<open>The \<^verbatim>\<open>if\<close>/\<^verbatim>\<open>elif\<close> chain that determines the control scheme.\<close>

definition control_scheme ::
  "controller \<Rightarrow> normalized_landmark list option \<Rightarrow> normalized_landmark list option \<Rightarrow>
   py_error + controller" where
  "control_scheme self left_hand right_hand =
     (if truthy left_hand \<and> truthy right_hand then
        (case update_scale_from_palm
                (self\<lparr> control_hand := Some ''left'', rotation_hand := Some ''right'' \<rparr>)
                (the left_hand) of
           Inl e \<Rightarrow> Inl e
         | Inr self' \<Rightarrow> update_rotation_from_hand self' (the right_hand))
      else if truthy left_hand then
        update_scale_from_palm
          (self\<lparr> control_hand := Some ''left'', rotation_hand := None \<rparr>) (the left_hand)
      else if truthy right_hand then
        update_rotation_from_hand
          (self\<lparr> control_hand := None, rotation_hand := Some ''right'' \<rparr>) (the right_hand)
      else Inr self)"

text \<open>The three smoothing assignments that end \<^verbatim>\<open>process_hands\<close>.\<close>

definition apply_smoothing :: "controller \<Rightarrow> controller" where
  "apply_smoothing self =
     (let self1 = self\<lparr> scale :=
                    smooth_value (scale self) (target_scale self) (smooth_factor self) \<rparr>;
          self2 = self1\<lparr> rotation_x :=
                    smooth_value (rotation_x self1) (target_rotation_x self1) (smooth_factor self1) \<rparr>
      in self2\<lparr> rotation_y :=
                    smooth_value (rotation_y self2) (target_rotation_y self2) (smooth_factor self2) \<rparr>)"

definition process_hands :: "controller \<Rightarrow> results_t \<Rightarrow> py_error + controller" where
  "process_hands self results =
     (case (if truthy (multi_hand_landmarks results) \<and> truthy (multi_handedness results) then
              (case assign_hands (zip (the (multi_hand_landmarks results))
                                      (the (multi_handedness results))) None None of
                 Inl e \<Rightarrow> Inl e
               | Inr (left_hand, right_hand) \<Rightarrow> control_scheme self left_hand right_hand)
            else Inr (self\<lparr> control_hand := None, rotation_hand := None \<rparr>)) of
        Inl e \<Rightarrow> Inl e
      | Inr self' \<Rightarrow> Inr (apply_smoothing self'))"

text \<open>
  Successive calls of \<^verbatim>\<open>process_hands\<close> by the loop of \<^verbatim>\<open>main\<close>, one per
  camera frame; an exception leaves the loop.
\<close>

fun process_frames :: "controller \<Rightarrow> results_t list \<Rightarrow> py_error + controller" where
  "process_frames self [] = Inr self"
| "process_frames self (results # rest) =
     (case process_hands self results of
        Inl e \<Rightarrow> Inl e
      | Inr self' \<Rightarrow> process_frames self' rest)"

section \<open>Double-precision evaluation\<close>

text \<open>
  Where a property depends on the rounding of Python's floats, the arithmetic of the
  source line is written out: every operation on doubles returns the exact result
  rounded to the nearest IEEE 754 binary64 value, ties to even. \<open>round64\<close> is that
  rounding: a value in the binade \<open>[2 ^ e, 2 ^ (e + 1))\<close> is rounded to a multiple of
  \<open>2 ^ (e - 52)\<close>, and below \<open>2 ^ (- 1022)\<close> (subnormal range) to a multiple of
  \<open>2 ^ (- 1074)\<close>. Overflow to infinity is not modelled; \<open>double_value\<close> keeps the
  operands far enough from it.
\<close>

definition round_half_even :: "real \<Rightarrow> int" where
  "round_half_even y =
     (let n = \<lfloor>y\<rfloor>; r = y - of_int n
      in if r < 1/2 then n else if 1/2 < r then n + 1 else if even n then n else n + 1)"

definition ulp_exponent :: "real \<Rightarrow> int" where
  "ulp_exponent x = max \<lfloor>log 2 \<bar>x\<bar>\<rfloor> (- 1022) - 52"

definition round64 :: "real \<Rightarrow> real" where
  "round64 x =
     (if x = 0 then 0
      else of_int (round_half_even (x / 2 powi ulp_exponent x)) * 2 powi ulp_exponent x)"

definition double_value :: "real \<Rightarrow> bool" where
  "double_value x = (round64 x = x \<and> \<bar>x\<bar> \<le> 2 ^ 1022)"


definition target_scale_f64 :: "real \<Rightarrow> real \<Rightarrow> real \<Rightarrow> real" where
  "target_scale_f64 lo hi openness = round64 (lo + round64 (openness * round64 (hi - lo)))"

section \<open>Notions used to state the properties\<close>

text \<open>The sequence of hands that the loop of \<open>process_hands\<close> iterates over.\<close>

definition frame_hands :: "results_t \<Rightarrow> (hand_landmarks_t \<times> handedness_t) list" where
  "frame_hands results =
     (if truthy (multi_hand_landmarks results) \<and> truthy (multi_handedness results)
      then zip (the (multi_hand_landmarks results)) (the (multi_handedness results))
      else [])"

definition hand_label :: "hand_landmarks_t \<times> handedness_t \<Rightarrow> string option" where
  "hand_label e = (case classification (snd e) of [] \<Rightarrow> None | c # _ \<Rightarrow> Some (label c))"

definition hands_labelled ::
  "string \<Rightarrow> (hand_landmarks_t \<times> handedness_t) list \<Rightarrow>
   (hand_landmarks_t \<times> handedness_t) list" where
  "hands_labelled lab es = filter (\<lambda>e. hand_label e = Some lab) es"

text \<open>The keypoints of the last hand of the sequence that carries the label.\<close>

definition last_labelled ::
  "string \<Rightarrow> (hand_landmarks_t \<times> handedness_t) list \<Rightarrow> normalized_landmark list option" where
  "last_labelled lab es =
     (case hands_labelled lab es of
        [] \<Rightarrow> None
      | e # fs \<Rightarrow> Some (landmark (fst (last (e # fs)))))"

text \<open>The value of a loop variable after the loop, when it held \<open>d\<close> before it.\<close>

definition pick ::
  "string \<Rightarrow> (hand_landmarks_t \<times> handedness_t) list \<Rightarrow>
   normalized_landmark list option \<Rightarrow> normalized_landmark list option" where
  "pick lab es d = (case last_labelled lab es of None \<Rightarrow> d | Some l \<Rightarrow> Some l)"

definition labels_present :: "results_t \<Rightarrow> string set" where
  "labels_present results = Option.these (set (map hand_label (frame_hands results)))"

text \<open>
  A hand as the detector delivers it: 21 keypoints and one classification entry whose
  label is \<^verbatim>\<open>Left\<close> or \<^verbatim>\<open>Right\<close>.
\<close>

definition well_formed_hand :: "hand_landmarks_t \<times> handedness_t \<Rightarrow> bool" where
  "well_formed_hand e =
     (length (landmark (fst e)) = 21 \<and>
      (case classification (snd e) of
         [c] \<Rightarrow> label c = ''Left'' \<or> label c = ''Right''
       | _ \<Rightarrow> False))"

text \<open>
  The role policy in the words of the specification: a pair of the size-control role
  and the rotation-control role, from the set of labels present.
\<close>

definition spec_assign_roles :: "string set \<Rightarrow> string option \<times> string option" where
  "spec_assign_roles labels =
     (if ''Left'' \<in> labels \<and> ''Right'' \<in> labels then (Some ''left'', Some ''right'')
      else if ''Left'' \<in> labels then (Some ''left'', None)
      else if ''Right'' \<in> labels then (None, Some ''right'')
      else (None, None))"

text \<open>
  The average of the five Euclidean distances from the wrist (keypoint 0) to the
  fingertips (keypoints 4, 8, 12, 16, 20), and the clamped linear map of the
  specification from \<open>[0.10, 0.40]\<close> to \<open>[0, 1]\<close>.
\<close>

definition fingertip_distance :: "normalized_landmark list \<Rightarrow> nat \<Rightarrow> real" where
  "fingertip_distance hl i =
     sqrt ((lx (hl ! i) - lx (hl ! 0))\<^sup>2 + (ly (hl ! i) - ly (hl ! 0))\<^sup>2)"

definition avg_fingertip_distance :: "normalized_landmark list \<Rightarrow> real" where
  "avg_fingertip_distance hl =
     (fingertip_distance hl 4 + fingertip_distance hl 8 + fingertip_distance hl 12 +
      fingertip_distance hl 16 + fingertip_distance hl 20) / 5"

definition openness_of_distance :: "real \<Rightarrow> real" where
  "openness_of_distance d = max 0 (min 1 ((d - 0.10) / (0.40 - 0.10)))"

definition scale_bounded :: "controller \<Rightarrow> bool" where
  "scale_bounded self =
     (scale_min self \<le> scale self \<and> scale self \<le> scale_max self \<and>
      scale_min self \<le> target_scale self \<and> target_scale self \<le> scale_max self)"

subsection \<open>Concrete inputs\<close>

definition detected_hand ::
  "string \<Rightarrow> normalized_landmark list \<Rightarrow> hand_landmarks_t \<times> handedness_t" where
  "detected_hand lab hl = (\<lparr> landmark = hl \<rparr>, \<lparr> classification = [\<lparr> label = lab \<rparr>] \<rparr>)"

definition results_of :: "(hand_landmarks_t \<times> handedness_t) list \<Rightarrow> results_t" where
  "results_of es =
     (if es = [] then \<lparr> multi_hand_landmarks = None, multi_handedness = None \<rparr>
      else \<lparr> multi_hand_landmarks = Some (map fst es), multi_handedness = Some (map snd es) \<rparr>)"

text \<open>A hand whose 21 keypoints all lie at \<open>(x, y)\<close>.\<close>

definition hand_at :: "real \<Rightarrow> real \<Rightarrow> normalized_landmark list" where
  "hand_at x y = replicate 21 \<lparr> lx = x, ly = y, lz = 0 \<rparr>"

text \<open>A hand with the wrist at \<open>(x, y)\<close> and every fingertip at distance \<open>d\<close> from it.\<close>

definition open_hand :: "real \<Rightarrow> real \<Rightarrow> real \<Rightarrow> normalized_landmark list" where
  "open_hand x y d =
     (hand_at x y)[4 := \<lparr> lx = x + d, ly = y, lz = 0 \<rparr>,
                   8 := \<lparr> lx = x + d, ly = y, lz = 0 \<rparr>,
                   12 := \<lparr> lx = x + d, ly = y, lz = 0 \<rparr>,
                   16 := \<lparr> lx = x + d, ly = y, lz = 0 \<rparr>,
                   20 := \<lparr> lx = x + d, ly = y, lz = 0 \<rparr>]"

text \<open>A state whose targets differ from the initial ones, and the hands of the
  end-to-end scenarios of the specification.\<close>

definition example_state :: controller where
  "example_state = init_controller\<lparr> target_scale := 3.5, target_rotation_x := 45 \<rparr>"


definition fully_open_hand :: "normalized_landmark list" where
  "fully_open_hand = open_hand 0.5 0.5 0.5"


definition scenario_open :: results_t where
  "scenario_open = results_of [detected_hand ''Left'' fully_open_hand]"

section \<open>Auxiliary facts\<close>

lemma pick_Nil: "pick lab [] d = d"
  by (simp add: pick_def last_labelled_def hands_labelled_def)

lemma pick_Cons:
  "pick lab (e # es) d = pick lab es (if hand_label e = Some lab then Some (landmark (fst e)) else d)"
  by (simp add: pick_def last_labelled_def hands_labelled_def split: list.splits)

lemma assign_hands_char:
  "assign_hands es l r =
     (if \<exists>e \<in> set es. classification (snd e) = [] then Inl IndexError
      else Inr (pick ''Left'' es l, pick ''Right'' es r))"
proof (induction es arbitrary: l r)
  case Nil
  show ?case by (simp add: pick_Nil)
next
  case (Cons e es)
  obtain hl hd where e: "e = (hl, hd)" by (cases e)
  show ?case
  proof (cases "classification hd")
    case Nil
    then show ?thesis by (simp add: e getitem_def)
  next
    case (Cons c cs)
    then show ?thesis
      by (simp add: e getitem_def Cons.IH pick_Cons hand_label_def)
  qed
qed

lemma getitems_char:
  "getitems xs js = (if \<forall>i \<in> set js. i < length xs then Inr (map (nth xs) js) else Inl IndexError)"
  by (induction js) (auto simp: getitem_def)

lemma calculate_palm_openness_ok:
  assumes "21 \<le> length hl"
  shows "calculate_palm_openness hl = Inr (openness_of_distance (avg_fingertip_distance hl))"
proof -
  have wrist: "getitem hl 0 = Inr (hl ! 0)"
    using assms by (cases hl) (simp_all add: getitem_def)
  have tips: "getitems hl [4, 8, 12, 16, 20] = Inr [hl ! 4, hl ! 8, hl ! 12, hl ! 16, hl ! 20]"
    using assms by (simp add: getitems_char)
  have total: "foldl (\<lambda>total tip.
                 let dx = lx tip - lx (hl ! 0); dy = ly tip - ly (hl ! 0);
                     distance = sqrt (dx\<^sup>2 + dy\<^sup>2)
                 in total + distance) 0 [hl ! 4, hl ! 8, hl ! 12, hl ! 16, hl ! 20]
               = 5 * avg_fingertip_distance hl"
    by (simp add: Let_def avg_fingertip_distance_def fingertip_distance_def)
  show ?thesis
    unfolding calculate_palm_openness_def wrist tips sum.case total
    by (simp add: Let_def openness_of_distance_def mult.commute)
qed

lemma calculate_palm_openness_err:
  assumes "length hl < 21"
  shows "calculate_palm_openness hl = Inl IndexError"
  using assms
  by (simp add: calculate_palm_openness_def getitem_def getitems_char split: sum.splits)

lemma openness_range: "0 \<le> openness_of_distance d \<and> openness_of_distance d \<le> 1"
  by (simp add: openness_of_distance_def)

lemma openness_low: "d \<le> 0.10 \<Longrightarrow> openness_of_distance d = 0"
  by (simp add: openness_of_distance_def)

lemma openness_high: "0.40 \<le> d \<Longrightarrow> openness_of_distance d = 1"
  by (simp add: openness_of_distance_def)

lemma openness_mono: "d \<le> d' \<Longrightarrow> openness_of_distance d \<le> openness_of_distance d'"
  by (auto simp add: openness_of_distance_def max_def min_def divide_right_mono)

lemma openness_linear: "0.10 \<le> d \<Longrightarrow> d \<le> 0.40 \<Longrightarrow> openness_of_distance d = (d - 0.10) / 0.30"
  by (simp add: openness_of_distance_def)

lemma pick_None: "pick lab es None = last_labelled lab es"
  by (simp add: pick_def split: option.splits)

lemma truthy_frame:
  "(truthy (multi_hand_landmarks r) \<and> truthy (multi_handedness r)) = (frame_hands r \<noteq> [])"
  by (auto simp: frame_hands_def truthy_def split: option.splits)

lemma frame_hands_zip:
  "frame_hands r \<noteq> [] \<Longrightarrow>
   zip (the (multi_hand_landmarks r)) (the (multi_handedness r)) = frame_hands r"
  by (auto simp: frame_hands_def split: if_splits)

lemma process_hands_frame:
  "process_hands s r =
     (case (if frame_hands r \<noteq> [] then
              (case assign_hands (frame_hands r) None None of
                 Inl e \<Rightarrow> Inl e
               | Inr (left_hand, right_hand) \<Rightarrow> control_scheme s left_hand right_hand)
            else Inr (s\<lparr> control_hand := None, rotation_hand := None \<rparr>)) of
        Inl e \<Rightarrow> Inl e
      | Inr s' \<Rightarrow> Inr (apply_smoothing s'))"
  unfolding process_hands_def truthy_frame
  by (simp add: frame_hands_zip)

lemma process_hands_Inr:
  assumes "process_hands s r = Inr s'"
  shows "\<exists>s1. s' = apply_smoothing s1 \<and>
           (if frame_hands r \<noteq> [] then
              control_scheme s (last_labelled ''Left'' (frame_hands r))
                               (last_labelled ''Right'' (frame_hands r)) = Inr s1
            else s1 = s\<lparr> control_hand := None, rotation_hand := None \<rparr>)"
  using assms unfolding process_hands_frame assign_hands_char pick_None
  by (auto split: if_splits sum.splits)

lemma apply_smoothing_fields:
  "target_scale (apply_smoothing s) = target_scale s"
  "target_rotation_x (apply_smoothing s) = target_rotation_x s"
  "target_rotation_y (apply_smoothing s) = target_rotation_y s"
  "control_hand (apply_smoothing s) = control_hand s"
  "rotation_hand (apply_smoothing s) = rotation_hand s"
  "smooth_factor (apply_smoothing s) = smooth_factor s"
  "scale_min (apply_smoothing s) = scale_min s"
  "scale_max (apply_smoothing s) = scale_max s"
  "rotation_x_sensitivity (apply_smoothing s) = rotation_x_sensitivity s"
  "rotation_y_sensitivity (apply_smoothing s) = rotation_y_sensitivity s"
  "scale (apply_smoothing s) = smooth_value (scale s) (target_scale s) (smooth_factor s)"
  "rotation_x (apply_smoothing s) = smooth_value (rotation_x s) (target_rotation_x s) (smooth_factor s)"
  "rotation_y (apply_smoothing s) = smooth_value (rotation_y s) (target_rotation_y s) (smooth_factor s)"
  by (simp_all add: apply_smoothing_def Let_def)

lemma update_scale_from_palm_Inr:
  "update_scale_from_palm s hl = Inr s' \<Longrightarrow>
   \<exists>openness. calculate_palm_openness hl = Inr openness \<and>
     s' = s\<lparr> target_scale := scale_min s + openness * (scale_max s - scale_min s) \<rparr>"
  by (auto simp: update_scale_from_palm_def split: sum.splits)

lemma update_rotation_from_hand_Inr:
  "update_rotation_from_hand s hl = Inr s' \<Longrightarrow>
   hl \<noteq> [] \<and>
   s' = s\<lparr> target_rotation_y := (lx (hl ! 0) - 0.5) * rotation_y_sensitivity s,
           target_rotation_x := (0.5 - ly (hl ! 0)) * rotation_x_sensitivity s \<rparr>"
  by (auto simp: update_rotation_from_hand_def get_hand_position_def getitem_def
      split: sum.splits if_splits)

lemma control_scheme_keeps:
  assumes "control_scheme s l r = Inr s'"
  shows "scale s' = scale s \<and> smooth_factor s' = smooth_factor s \<and>
         rotation_x s' = rotation_x s \<and> rotation_y s' = rotation_y s \<and>
         rotation_x_sensitivity s' = rotation_x_sensitivity s \<and>
         rotation_y_sensitivity s' = rotation_y_sensitivity s \<and>
         scale_min s' = scale_min s \<and> scale_max s' = scale_max s"
  using assms unfolding control_scheme_def
  by (auto split: if_splits sum.splits
      dest!: update_scale_from_palm_Inr update_rotation_from_hand_Inr)

lemma control_scheme_scale_frozen:
  assumes "control_scheme s l r = Inr s'" and "\<not> truthy l \<or> control_hand s' = None"
  shows "target_scale s' = target_scale s"
  using assms unfolding control_scheme_def
  by (auto split: if_splits sum.splits
      dest!: update_scale_from_palm_Inr update_rotation_from_hand_Inr)

lemma control_scheme_rotation_frozen:
  assumes "control_scheme s l r = Inr s'" and "\<not> truthy r \<or> rotation_hand s' = None"
  shows "target_rotation_x s' = target_rotation_x s \<and> target_rotation_y s' = target_rotation_y s"
  using assms unfolding control_scheme_def
  by (auto split: if_splits sum.splits
      dest!: update_scale_from_palm_Inr update_rotation_from_hand_Inr)

lemma control_scheme_scale_target:
  assumes "control_scheme s l r = Inr s'" and "truthy l"
  shows "\<exists>openness. calculate_palm_openness (the l) = Inr openness \<and>
           target_scale s' = scale_min s + openness * (scale_max s - scale_min s)"
  using assms unfolding control_scheme_def
  by (auto split: if_splits sum.splits
      dest!: update_scale_from_palm_Inr update_rotation_from_hand_Inr)

lemma control_scheme_rotation_target:
  assumes "control_scheme s l r = Inr s'" and "truthy r"
  shows "target_rotation_y s' = (lx (the r ! 0) - 0.5) * rotation_y_sensitivity s \<and>
         target_rotation_x s' = (0.5 - ly (the r ! 0)) * rotation_x_sensitivity s"
  using assms unfolding control_scheme_def
  by (auto split: if_splits sum.splits
      dest!: update_scale_from_palm_Inr update_rotation_from_hand_Inr)

lemma control_scheme_roles:
  assumes "control_scheme s l r = Inr s'" and "truthy l \<or> truthy r"
  shows "control_hand s' = (if truthy l then Some ''left'' else None) \<and>
         rotation_hand s' = (if truthy r then Some ''right'' else None)"
  using assms unfolding control_scheme_def
  by (auto split: if_splits sum.splits
      dest!: update_scale_from_palm_Inr update_rotation_from_hand_Inr)

lemma control_scheme_total:
  assumes "truthy l \<longrightarrow> 21 \<le> length (the l)"
  shows "\<exists>s'. control_scheme s l r = Inr s'"
  using assms unfolding control_scheme_def
  by (auto simp: update_scale_from_palm_def update_rotation_from_hand_def
      get_hand_position_def getitem_def calculate_palm_openness_ok truthy_def
      split: option.splits)

lemma frame_hands_results_of: "frame_hands (results_of es) = es"
  by (simp add: frame_hands_def results_of_def truthy_def zip_map_fst_snd)

lemma length_hand_at: "length (hand_at x y) = 21"
  by (simp add: hand_at_def)

lemma length_open_hand: "length (open_hand x y d) = 21"
  by (simp add: open_hand_def hand_at_def)

lemma hand_label_detected: "hand_label (detected_hand lab hl) = Some lab"
  by (simp add: hand_label_def detected_hand_def)

lemma landmark_detected: "landmark (fst (detected_hand lab hl)) = hl"
  by (simp add: detected_hand_def)

lemma avg_hand_at: "avg_fingertip_distance (hand_at x y) = 0"
  by (simp add: avg_fingertip_distance_def fingertip_distance_def hand_at_def)

lemma avg_open_hand: "0 \<le> d \<Longrightarrow> avg_fingertip_distance (open_hand x y d) = d"
  by (simp add: avg_fingertip_distance_def fingertip_distance_def open_hand_def hand_at_def)

lemma last_labelled_None_iff: "last_labelled lab es = None \<longleftrightarrow> hands_labelled lab es = []"
  by (simp add: last_labelled_def split: list.splits)

lemma last_labelled_Some:
  assumes "last_labelled lab es = Some l"
  shows "\<exists>e \<in> set es. hand_label e = Some lab \<and> l = landmark (fst e)"
proof -
  from assms have ne: "hands_labelled lab es \<noteq> []"
    and l: "l = landmark (fst (last (hands_labelled lab es)))"
    by (auto simp: last_labelled_def split: list.splits)
  from ne have "last (hands_labelled lab es) \<in> set (hands_labelled lab es)"
    by (rule last_in_set)
  then show ?thesis using l by (auto simp: hands_labelled_def)
qed

lemma labels_present_iff:
  "lab \<in> labels_present r \<longleftrightarrow> hands_labelled lab (frame_hands r) \<noteq> []"
  unfolding labels_present_def in_these_eq hands_labelled_def filter_empty_conv
  by (simp add: image_iff) (metis)

lemma well_formed_label:
  "well_formed_hand e \<Longrightarrow> hand_label e = Some ''Left'' \<or> hand_label e = Some ''Right''"
  by (auto simp: well_formed_hand_def hand_label_def split: list.splits)

lemma well_formed_last_labelled:
  assumes "list_all well_formed_hand es"
  shows "truthy (last_labelled lab es) \<longleftrightarrow> hands_labelled lab es \<noteq> []"
    and "truthy (last_labelled lab es) \<longrightarrow> length (the (last_labelled lab es)) = 21"
proof -
  have len: "length l = 21" if "last_labelled lab es = Some l" for l
    using last_labelled_Some [OF that] assms
    by (auto simp: list_all_iff well_formed_hand_def)
  show "truthy (last_labelled lab es) \<longleftrightarrow> hands_labelled lab es \<noteq> []"
    using len last_labelled_None_iff [of lab es]
    by (cases "last_labelled lab es") (auto simp: truthy_def)
  show "truthy (last_labelled lab es) \<longrightarrow> length (the (last_labelled lab es)) = 21"
    using len by (cases "last_labelled lab es") (auto simp: truthy_def)
qed

lemma well_formed_some_hand:
  assumes "list_all well_formed_hand es" and "es \<noteq> []"
  shows "hands_labelled ''Left'' es \<noteq> [] \<or> hands_labelled ''Right'' es \<noteq> []"
proof -
  from assms obtain e where "e \<in> set es" and "well_formed_hand e"
    by (cases es) (auto simp: list_all_iff)
  then show ?thesis
    using well_formed_label [of e] by (auto simp: hands_labelled_def filter_empty_conv)
qed

lemma calculate_palm_openness_Inr:
  assumes "calculate_palm_openness hl = Inr v"
  shows "21 \<le> length hl \<and> v = openness_of_distance (avg_fingertip_distance hl)"
proof (cases "length hl < 21")
  case True
  with assms show ?thesis by (simp add: calculate_palm_openness_err)
next
  case False
  with assms show ?thesis by (simp add: calculate_palm_openness_ok)
qed

lemma process_hands_total:
  assumes "list_all well_formed_hand (frame_hands r)"
  shows "\<exists>s'. process_hands s r = Inr s'"
proof (cases "frame_hands r = []")
  case True
  then show ?thesis by (simp add: process_hands_frame)
next
  case False
  let ?l = "last_labelled ''Left'' (frame_hands r)"
  let ?r = "last_labelled ''Right'' (frame_hands r)"
  from well_formed_last_labelled(2) [OF assms, of "''Left''"]
  have "truthy ?l \<longrightarrow> 21 \<le> length (the ?l)"
    by simp
  from control_scheme_total [OF this] obtain s1 where cs: "control_scheme s ?l ?r = Inr s1"
    by blast
  have "\<not> (\<exists>e \<in> set (frame_hands r). classification (snd e) = [])"
    using assms by (auto simp: list_all_iff well_formed_hand_def)
  then have "process_hands s r = Inr (apply_smoothing s1)"
    unfolding process_hands_frame assign_hands_char pick_None
    using False cs by simp
  then show ?thesis by blast
qed

lemma process_hands_init_no_hands:
  assumes "frame_hands r = []"
  shows "process_hands init_controller r = Inr init_controller"
  using assms
  by (simp add: process_hands_frame apply_smoothing_def smooth_value_def init_controller_def)

lemma smooth_value_convex: "smooth_value c t f = (1 - f) * c + f * t"
  by (simp add: smooth_value_def algebra_simps)

lemma smooth_value_between:
  assumes "0 \<le> f" and "f \<le> 1" and "lo \<le> c" and "c \<le> hi" and "lo \<le> t" and "t \<le> hi"
  shows "lo \<le> smooth_value c t f \<and> smooth_value c t f \<le> hi"
proof -
  have "(1 - f) * lo + f * lo \<le> (1 - f) * c + f * t"
    using assms by (intro add_mono mult_left_mono) simp_all
  moreover have "(1 - f) * c + f * t \<le> (1 - f) * hi + f * hi"
    using assms by (intro add_mono mult_left_mono) simp_all
  ultimately show ?thesis
    by (simp add: smooth_value_convex algebra_simps)
qed

lemma target_in_range:
  assumes "0 \<le> v" and "v \<le> 1" and "lo \<le> (hi::real)"
  shows "lo \<le> lo + v * (hi - lo) \<and> lo + v * (hi - lo) \<le> hi"
proof -
  have "v * (hi - lo) \<le> 1 * (hi - lo)"
    using assms by (intro mult_right_mono) simp_all
  then show ?thesis using assms by simp
qed

lemma process_hands_scale_bounded:
  assumes run: "process_hands s r = Inr s'" and inv: "scale_bounded s"
    and f: "0 \<le> smooth_factor s" "smooth_factor s \<le> 1"
  shows "scale_bounded s' \<and> smooth_factor s' = smooth_factor s \<and>
         scale_min s' = scale_min s \<and> scale_max s' = scale_max s"
proof -
  from process_hands_Inr [OF run] obtain s1 where
    s': "s' = apply_smoothing s1" and
    s1: "if frame_hands r \<noteq> [] then
           control_scheme s (last_labelled ''Left'' (frame_hands r))
                            (last_labelled ''Right'' (frame_hands r)) = Inr s1
         else s1 = s\<lparr> control_hand := None, rotation_hand := None \<rparr>"
    by blast
  from inv have le: "scale_min s \<le> scale_max s"
    by (simp add: scale_bounded_def)
  have keep: "scale s1 = scale s \<and> smooth_factor s1 = smooth_factor s \<and>
              scale_min s1 = scale_min s \<and> scale_max s1 = scale_max s"
    using s1 control_scheme_keeps by (auto split: if_splits)
  have target: "scale_min s \<le> target_scale s1 \<and> target_scale s1 \<le> scale_max s"
  proof (cases "frame_hands r \<noteq> [] \<and> truthy (last_labelled ''Left'' (frame_hands r))")
    case True
    with s1 have cs: "control_scheme s (last_labelled ''Left'' (frame_hands r))
                            (last_labelled ''Right'' (frame_hands r)) = Inr s1"
      by simp
    from control_scheme_scale_target [OF cs] True obtain v where
      v: "calculate_palm_openness (the (last_labelled ''Left'' (frame_hands r))) = Inr v" and
      t: "target_scale s1 = scale_min s + v * (scale_max s - scale_min s)"
      by blast
    from calculate_palm_openness_Inr [OF v] have "0 \<le> v" "v \<le> 1"
      by (simp_all add: openness_range)
    from target_in_range [OF this le] show ?thesis
      by (simp add: t)
  next
    case False
    then have "target_scale s1 = target_scale s"
      using s1 control_scheme_scale_frozen by (auto split: if_splits)
    with inv show ?thesis by (simp add: scale_bounded_def)
  qed
  from inv have cur: "scale_min s \<le> scale s" "scale s \<le> scale_max s"
    by (simp_all add: scale_bounded_def)
  from smooth_value_between [OF f cur] target
  have "scale_min s \<le> smooth_value (scale s) (target_scale s1) (smooth_factor s) \<and>
        smooth_value (scale s) (target_scale s1) (smooth_factor s) \<le> scale_max s"
    by blast
  with target keep show ?thesis
    by (simp add: s' scale_bounded_def apply_smoothing_fields)
qed

lemma process_frames_scale_bounded:
  assumes "process_frames s rs = Inr s'" and "scale_bounded s"
    and "0 \<le> smooth_factor s" and "smooth_factor s \<le> 1"
  shows "scale_bounded s' \<and> smooth_factor s' = smooth_factor s \<and>
         scale_min s' = scale_min s \<and> scale_max s' = scale_max s"
  using assms
proof (induction rs arbitrary: s)
  case Nil
  then show ?case by simp
next
  case (Cons r rs)
  from Cons.prems(1) obtain s1 where
    step: "process_hands s r = Inr s1" and rest: "process_frames s1 rs = Inr s'"
    by (auto split: sum.splits)
  from process_hands_scale_bounded [OF step Cons.prems(2,3,4)]
  have s1: "scale_bounded s1" "smooth_factor s1 = smooth_factor s"
    "scale_min s1 = scale_min s" "scale_max s1 = scale_max s"
    by simp_all
  from Cons.IH [OF rest s1(1)] Cons.prems(3,4) s1 show ?case
    by simp
qed

lemma process_frames_total:
  assumes "\<forall>r \<in> set rs. list_all well_formed_hand (frame_hands r)"
  shows "\<exists>s'. process_frames s rs = Inr s'"
  using assms
proof (induction rs arbitrary: s)
  case Nil
  then show ?case by simp
next
  case (Cons r rs)
  from Cons.prems have "list_all well_formed_hand (frame_hands r)" by simp
  from process_hands_total [OF this] obtain s1 where "process_hands s r = Inr s1"
    by blast
  moreover from Cons.IH [of s1] Cons.prems obtain s' where "process_frames s1 rs = Inr s'"
    by auto
  ultimately show ?case by simp
qed



lemma rhe_cases:
  "round_half_even y = \<lfloor>y\<rfloor> \<or> round_half_even y = \<lfloor>y\<rfloor> + 1"
  by (simp add: round_half_even_def Let_def)

lemma rhe_of_int: "round_half_even (of_int n) = n"
  by (simp add: round_half_even_def)


lemma rhe_mono:
  assumes "y \<le> z"
  shows "round_half_even y \<le> round_half_even z"
proof (cases "\<lfloor>y\<rfloor> = \<lfloor>z\<rfloor>")
  case True
  with assms show ?thesis
    unfolding round_half_even_def Let_def by auto
next
  case False
  with assms have "\<lfloor>y\<rfloor> + 1 \<le> \<lfloor>z\<rfloor>"
    using floor_mono [OF assms] by linarith
  moreover have "round_half_even y \<le> \<lfloor>y\<rfloor> + 1"
    using rhe_cases [of y] by auto
  moreover have "\<lfloor>z\<rfloor> \<le> round_half_even z"
    using rhe_cases [of z] by auto
  ultimately show ?thesis by linarith
qed


lemma powr2_of_int: "(2::real) powr real_of_int k = 2 powi k"
  by (simp add: powr_real_of_int')

lemma floor_log2_bounds:
  assumes "x \<noteq> 0"
  shows "2 powi \<lfloor>log 2 \<bar>x\<bar>\<rfloor> \<le> \<bar>x\<bar>" and "\<bar>x\<bar> < 2 powi (\<lfloor>log 2 \<bar>x\<bar>\<rfloor> + 1)"
proof -
  from assms have pos: "0 < \<bar>x\<bar>" by simp
  have "2 powr real_of_int \<lfloor>log 2 \<bar>x\<bar>\<rfloor> \<le> \<bar>x\<bar> \<and>
        \<bar>x\<bar> < 2 powr real_of_int (\<lfloor>log 2 \<bar>x\<bar>\<rfloor> + 1)"
    using floor_log_eq_powr_iff [OF pos, of 2 "\<lfloor>log 2 \<bar>x\<bar>\<rfloor>"] by simp
  then show "2 powi \<lfloor>log 2 \<bar>x\<bar>\<rfloor> \<le> \<bar>x\<bar>" and "\<bar>x\<bar> < 2 powi (\<lfloor>log 2 \<bar>x\<bar>\<rfloor> + 1)"
    unfolding powr2_of_int by blast+
qed

lemma floor_log2_eq:
  assumes "2 powi k \<le> \<bar>x\<bar>" and "\<bar>x\<bar> < 2 powi (k + 1)"
  shows "\<lfloor>log 2 \<bar>x\<bar>\<rfloor> = k"
proof -
  have "(0::real) < 2 powi k" by simp
  with assms(1) have pos: "0 < \<bar>x\<bar>" by linarith
  have "2 powr real_of_int k \<le> \<bar>x\<bar> \<and> \<bar>x\<bar> < 2 powr real_of_int (k + 1)"
    unfolding powr2_of_int using assms by blast
  then show ?thesis
    using floor_log_eq_powr_iff [OF pos, of 2 k] by simp
qed

lemma round64_0: "round64 0 = 0"
  by (simp add: round64_def)

lemma round64_eval:
  assumes "2 powi k \<le> \<bar>x\<bar>" and "\<bar>x\<bar> < 2 powi (k + 1)" and "- 1022 \<le> k"
  shows "round64 x = of_int (round_half_even (x / 2 powi (k - 52))) * 2 powi (k - 52)"
proof -
  have "(0::real) < 2 powi k" by simp
  with assms(1) have "0 < \<bar>x\<bar>" by linarith
  then have "x \<noteq> 0" by simp
  moreover have "ulp_exponent x = k - 52"
    using floor_log2_eq [OF assms(1,2)] assms(3) by (simp add: ulp_exponent_def)
  ultimately show ?thesis by (simp add: round64_def)
qed

lemma rhe_minus: "round_half_even (- y) = - round_half_even y"
proof (cases "y = of_int \<lfloor>y\<rfloor>")
  case True
  then obtain n where "y = of_int n" ..
  then have "- y = of_int (- n)" by simp
  then show ?thesis
    unfolding \<open>y = of_int n\<close> by (metis rhe_of_int of_int_minus)
next
  case False
  then have fl: "\<lfloor>- y\<rfloor> = - \<lfloor>y\<rfloor> - 1"
    by (simp add: floor_eq_iff) linarith
  show ?thesis
    unfolding round_half_even_def Let_def fl
    by (auto simp: algebra_simps)
qed

lemma round64_minus: "round64 (- x) = - round64 x"
  by (simp add: round64_def ulp_exponent_def rhe_minus)


lemma round64_nonneg: "0 \<le> x \<Longrightarrow> 0 \<le> round64 x"
proof -
  assume "0 \<le> x"
  then have "round_half_even 0 \<le> round_half_even (x / 2 powi ulp_exponent x)"
    by (intro rhe_mono) simp
  then have "0 \<le> round_half_even (x / 2 powi ulp_exponent x)"
    using rhe_of_int [of 0] by simp
  then show ?thesis
    by (simp add: round64_def)
qed

lemma grid_le:
  assumes "0 < u" and "x \<le> of_int m * u"
  shows "of_int (round_half_even (x / u)) * u \<le> of_int m * u"
proof -
  from assms have "x / u \<le> of_int m"
    by (simp add: pos_divide_le_eq)
  from rhe_mono [OF this] have "round_half_even (x / u) \<le> m"
    by (simp add: rhe_of_int)
  with assms(1) show ?thesis by simp
qed

lemma grid_ge:
  assumes "0 < u" and "of_int m * u \<le> x"
  shows "of_int m * u \<le> of_int (round_half_even (x / u)) * u"
proof -
  from assms have "of_int m \<le> x / u"
    by (simp add: pos_le_divide_eq)
  from rhe_mono [OF this] have "m \<le> round_half_even (x / u)"
    by (simp add: rhe_of_int)
  with assms(1) show ?thesis by simp
qed

lemma powi_split53: "(2::real) powi (e + 1) = of_int (2 ^ 53) * 2 powi (e - 52)"
proof -
  have "e + 1 = 53 + (e - 52)" by simp
  then have "(2::real) powi (e + 1) = 2 powi (53 + (e - 52))" by (simp only:)
  also have "\<dots> = 2 powi 53 * 2 powi (e - 52)"
    by (subst power_int_add) simp_all
  finally show ?thesis by simp
qed

lemma powi_split52: "(2::real) powi e = of_int (2 ^ 52) * 2 powi (e - 52)"
proof -
  have "e = 52 + (e - 52)" by simp
  then have "(2::real) powi e = 2 powi (52 + (e - 52))" by (simp only:)
  also have "\<dots> = 2 powi 52 * 2 powi (e - 52)"
    by (subst power_int_add) simp_all
  finally show ?thesis by simp
qed

lemma round64_mono_pos:
  assumes "0 < x" and "x \<le> y"
  shows "round64 x \<le> round64 y"
proof -
  define ex where "ex = max \<lfloor>log 2 \<bar>x\<bar>\<rfloor> (- 1022)"
  define ey where "ey = max \<lfloor>log 2 \<bar>y\<bar>\<rfloor> (- 1022)"
  from assms have y: "0 < y" and nz: "x \<noteq> 0" "y \<noteq> 0" by simp_all
  have rx: "round64 x = of_int (round_half_even (x / 2 powi (ex - 52))) * 2 powi (ex - 52)"
    using nz by (simp add: round64_def ulp_exponent_def ex_def)
  have ry: "round64 y = of_int (round_half_even (y / 2 powi (ey - 52))) * 2 powi (ey - 52)"
    using nz by (simp add: round64_def ulp_exponent_def ey_def)
  have "log 2 \<bar>x\<bar> \<le> log 2 \<bar>y\<bar>"
    using assms y by simp
  then have fl: "\<lfloor>log 2 \<bar>x\<bar>\<rfloor> \<le> \<lfloor>log 2 \<bar>y\<bar>\<rfloor>"
    by (rule floor_mono)
  then have le: "ex \<le> ey"
    by (simp add: ex_def ey_def)
  show ?thesis
  proof (cases "ex = ey")
    case True
    have "x / 2 powi (ey - 52) \<le> y / 2 powi (ey - 52)"
      using assms(2) by (simp add: divide_right_mono)
    from rhe_mono [OF this] show ?thesis
      unfolding rx ry True by (simp add: mult_right_mono)
  next
    case False
    with le have lt: "ex < ey" by simp
    have "- 1022 \<le> ex" by (simp add: ex_def)
    with lt have ey_eq: "ey = \<lfloor>log 2 \<bar>y\<bar>\<rfloor>"
      by (simp add: ey_def max_def split: if_splits)
    have ylow: "2 powi ey \<le> y"
      using floor_log2_bounds(1) [OF nz(2)] y by (simp add: ey_eq)
    have "\<lfloor>log 2 \<bar>x\<bar>\<rfloor> + 1 \<le> ex + 1"
      by (simp add: ex_def)
    then have "(2::real) powi (\<lfloor>log 2 \<bar>x\<bar>\<rfloor> + 1) \<le> 2 powi (ex + 1)"
      by (intro power_int_increasing) simp_all
    with floor_log2_bounds(2) [OF nz(1)] assms(1) have xhigh: "x \<le> 2 powi (ex + 1)"
      by simp
    have "round64 x \<le> of_int (2 ^ 53) * 2 powi (ex - 52)"
      unfolding rx using xhigh
      by (intro grid_le) (simp_all only: zero_less_power_int zero_less_numeral powi_split53 [symmetric])
    then have "round64 x \<le> 2 powi (ex + 1)"
      by (simp only: powi_split53 [symmetric])
    also have "\<dots> \<le> 2 powi ey"
      using lt by (intro power_int_increasing) simp_all
    also have "\<dots> = of_int (2 ^ 52) * 2 powi (ey - 52)"
      by (rule powi_split52)
    also have "\<dots> \<le> round64 y"
      unfolding ry using ylow
      by (intro grid_ge) (simp_all only: zero_less_power_int zero_less_numeral powi_split52 [symmetric])
    finally show ?thesis .
  qed
qed

lemma round64_mono:
  assumes "x \<le> y"
  shows "round64 x \<le> round64 y"
proof -
  consider "0 < x" | "y < 0" | "x \<le> 0" "0 \<le> y" by linarith
  then show ?thesis
  proof cases
    case 1
    then show ?thesis using assms by (rule round64_mono_pos)
  next
    case 2
    with assms have "0 < - y" and "- y \<le> - x" by simp_all
    from round64_mono_pos [OF this] show ?thesis
      by (simp add: round64_minus)
  next
    case 3
    from 3(1) have "0 \<le> round64 (- x)"
      by (intro round64_nonneg) simp
    then have "round64 x \<le> 0"
      by (simp add: round64_minus)
    also have "0 \<le> round64 y"
      using 3(2) by (rule round64_nonneg)
    finally show ?thesis .
  qed
qed












lemma target_scale_f64_03_09:
  "target_scale_f64 (5404319552844595 / 2 ^ 54) (8106479329266893 / 2 ^ 53) 1 =
     4053239664633447 / 2 ^ 52"
proof -
  have a: "round64 (8106479329266893 / 2 ^ 53 - 5404319552844595 / 2 ^ 54) =
             1351079888211149 / 2 ^ 51"
    by (subst round64_eval [of "- 1"]) (simp_all add: round_half_even_def Let_def)
  have b: "round64 (1 * (1351079888211149 / 2 ^ 51)) = 1351079888211149 / 2 ^ 51"
    by (subst round64_eval [of "- 1"]) (simp_all add: round_half_even_def Let_def)
  have c: "round64 (5404319552844595 / 2 ^ 54 + 1351079888211149 / 2 ^ 51) =
             4053239664633447 / 2 ^ 52"
    by (subst round64_eval [of "- 1"]) (simp_all add: round_half_even_def Let_def)
  show ?thesis
    unfolding target_scale_f64_def a b c ..
qed

lemma round64_03: "round64 (3 / 10) = 5404319552844595 / 2 ^ 54"
  by (subst round64_eval [of "- 2"]) (simp_all add: round_half_even_def Let_def)

lemma round64_09: "round64 (9 / 10) = 8106479329266893 / 2 ^ 53"
  by (subst round64_eval [of "- 1"]) (simp_all add: round_half_even_def Let_def)

lemma round64_half: "round64 (1 / 2) = 1 / 2"
  by (subst round64_eval [of "- 1"]) (simp_all add: round_half_even_def Let_def)

lemma round64_5: "round64 5 = 5"
  by (subst round64_eval [of "2"]) (simp_all add: round_half_even_def Let_def)

lemma round64_9_2: "round64 (9 / 2) = 9 / 2"
  by (subst round64_eval [of "2"]) (simp_all add: round_half_even_def Let_def)

lemma target_scale_f64_program_bounds:
  assumes "0 \<le> v" and "v \<le> 1"
  shows "1 / 2 \<le> target_scale_f64 (1 / 2) 5 v" and "target_scale_f64 (1 / 2) 5 v \<le> 5"
proof -
  have w: "round64 (5 - 1 / 2) = 9 / 2"
    using round64_9_2 by simp
  define q where "q = round64 (v * (9 / 2))"
  have "0 \<le> v * (9 / 2)" and "v * (9 / 2) \<le> 9 / 2"
    using assms by simp_all
  from round64_mono [OF this(1)] round64_mono [OF this(2)]
  have q: "0 \<le> q" "q \<le> 9 / 2"
    by (simp_all add: q_def round64_0 round64_9_2)
  then have "1 / 2 \<le> 1 / 2 + q" and "1 / 2 + q \<le> 5" by simp_all
  from round64_mono [OF this(1)] round64_mono [OF this(2)]
  show "1 / 2 \<le> target_scale_f64 (1 / 2) 5 v" and "target_scale_f64 (1 / 2) 5 v \<le> 5"
    unfolding target_scale_f64_def w q_def [symmetric]
    by (simp_all add: round64_half round64_5)
qed

lemma target_scale_f64_zero:
  assumes "round64 lo = lo"
  shows "target_scale_f64 lo hi 0 = lo"
  using assms by (simp add: target_scale_f64_def round64_0)

lemma target_scale_f64_one: "target_scale_f64 (1 / 2) 5 1 = 5"
proof -
  have w: "round64 (5 - 1 / 2) = 9 / 2"
    using round64_9_2 by simp
  have a: "round64 (1 * (9 / 2)) = 9 / 2"
    using round64_9_2 by simp
  have b: "round64 (1 / 2 + 9 / 2) = 5"
    using round64_5 by simp
  show ?thesis
    unfolding target_scale_f64_def w a b ..
qed



lemma fully_open_hand_openness: "calculate_palm_openness fully_open_hand = Inr 1"
  by (simp add: fully_open_hand_def calculate_palm_openness_ok length_open_hand avg_open_hand
      openness_of_distance_def)



lemma process_frames_bounds:
  assumes "process_frames init_controller rs = Inr s"
  shows "scale_min s = 0.5 \<and> scale_max s = 5.0"
proof -
  have "scale_bounded init_controller" "0 \<le> smooth_factor init_controller"
    "smooth_factor init_controller \<le> 1"
    by (simp_all add: scale_bounded_def init_controller_def)
  from process_frames_scale_bounded [OF assms this] show ?thesis
    by (simp add: init_controller_def)
qed

section \<open>Properties\<close>

text \<open>
  C1 (freeze invariant). For every frame that \<open>process_hands\<close> completes: if no hand
  labelled \<^verbatim>\<open>Left\<close> is reported, or the size-control role \<open>control_hand\<close> is
  unassigned after the frame, then \<open>target_scale\<close> is the value it had before the
  frame; if no hand labelled \<^verbatim>\<open>Right\<close> is reported, or the rotation-control role
  \<open>rotation_hand\<close> is unassigned after the frame, then \<open>target_rotation_x\<close> and
  \<open>target_rotation_y\<close> are the values they had before the frame.
\<close>

theorem freeze_invariant:
  assumes "process_hands s r = Inr s'"
  shows "(hands_labelled ''Left'' (frame_hands r) = [] \<longrightarrow> target_scale s' = target_scale s) \<and>
         (hands_labelled ''Right'' (frame_hands r) = [] \<longrightarrow>
            target_rotation_x s' = target_rotation_x s \<and>
            target_rotation_y s' = target_rotation_y s) \<and>
         (control_hand s' = None \<longrightarrow> target_scale s' = target_scale s) \<and>
         (rotation_hand s' = None \<longrightarrow>
            target_rotation_x s' = target_rotation_x s \<and>
            target_rotation_y s' = target_rotation_y s)"
proof -
  from process_hands_Inr [OF assms] obtain s1 where
    s': "s' = apply_smoothing s1" and
    s1: "if frame_hands r \<noteq> [] then
           control_scheme s (last_labelled ''Left'' (frame_hands r))
                            (last_labelled ''Right'' (frame_hands r)) = Inr s1
         else s1 = s\<lparr> control_hand := None, rotation_hand := None \<rparr>"
    by blast
  show ?thesis
  proof (cases "frame_hands r = []")
    case True
    with s1 s' show ?thesis by (simp add: apply_smoothing_fields)
  next
    case False
    with s1 have cs: "control_scheme s (last_labelled ''Left'' (frame_hands r))
                            (last_labelled ''Right'' (frame_hands r)) = Inr s1"
      by simp
    have noL: "hands_labelled ''Left'' (frame_hands r) = [] \<Longrightarrow>
               \<not> truthy (last_labelled ''Left'' (frame_hands r))"
      by (simp add: last_labelled_def truthy_def)
    have noR: "hands_labelled ''Right'' (frame_hands r) = [] \<Longrightarrow>
               \<not> truthy (last_labelled ''Right'' (frame_hands r))"
      by (simp add: last_labelled_def truthy_def)
    show ?thesis
      using control_scheme_scale_frozen [OF cs] control_scheme_rotation_frozen [OF cs] noL noR
      by (auto simp: s' apply_smoothing_fields)
  qed
qed

theorem freeze_invariant_witness:
  "\<exists>s'. process_hands example_state (results_of [detected_hand ''Right'' (hand_at 0.75 0.5)]) = Inr s' \<and>
     hands_labelled ''Left'' (frame_hands (results_of [detected_hand ''Right'' (hand_at 0.75 0.5)])) = [] \<and>
     target_scale s' = 3.5 \<and> target_rotation_x s' = 0 \<and> target_rotation_y s' = 90"
proof -
  let ?r = "results_of [detected_hand ''Right'' (hand_at 0.75 0.5)]"
  have noL: "hands_labelled ''Left'' (frame_hands ?r) = []"
    by (simp add: frame_hands_results_of hands_labelled_def hand_label_detected)
  have lR: "last_labelled ''Right'' (frame_hands ?r) = Some (hand_at 0.75 0.5)"
    by (simp add: frame_hands_results_of last_labelled_def hands_labelled_def
        hand_label_detected landmark_detected)
  have lL: "last_labelled ''Left'' (frame_hands ?r) = None"
    using noL by (simp add: last_labelled_None_iff)
  have ne: "frame_hands ?r \<noteq> []"
    by (simp add: frame_hands_results_of)
  obtain s' where run: "process_hands example_state ?r = Inr s'"
    and ty: "target_rotation_y s' = 90" and tx: "target_rotation_x s' = 0"
    unfolding process_hands_frame assign_hands_char pick_None lL lR
    using ne
    by (simp add: frame_hands_results_of detected_hand_def control_scheme_def truthy_def
        hand_at_def update_rotation_from_hand_def get_hand_position_def getitem_def
        apply_smoothing_fields example_state_def init_controller_def)
  from freeze_invariant [OF run] noL have "target_scale s' = target_scale example_state"
    by blast
  then show ?thesis using run noL ty tx
    by (simp add: example_state_def)
qed

text \<open>
  C2 (role assignment). For every frame whose hands are well formed and for every
  previous state, \<open>process_hands\<close> completes and the roles after the frame are the
  ones the four-case policy of the specification gives for the set of labels present:
  they are a function of that set alone.
\<close>

theorem role_assignment:
  assumes "list_all well_formed_hand (frame_hands r)"
  shows "\<exists>s'. process_hands s r = Inr s' \<and>
           (control_hand s', rotation_hand s') = spec_assign_roles (labels_present r)"
proof (cases "frame_hands r = []")
  case True
  then have "labels_present r = {}"
    by (simp add: labels_present_def)
  with True show ?thesis
    by (simp add: process_hands_frame spec_assign_roles_def apply_smoothing_fields)
next
  case False
  let ?l = "last_labelled ''Left'' (frame_hands r)"
  let ?r = "last_labelled ''Right'' (frame_hands r)"
  from well_formed_last_labelled [OF assms, of "''Left''"]
  have tl: "truthy ?l \<longleftrightarrow> ''Left'' \<in> labels_present r"
    and ll: "truthy ?l \<longrightarrow> 21 \<le> length (the ?l)"
    by (simp_all add: labels_present_iff)
  from well_formed_last_labelled [OF assms, of "''Right''"]
  have tr: "truthy ?r \<longleftrightarrow> ''Right'' \<in> labels_present r"
    by (simp add: labels_present_iff)
  from well_formed_some_hand [OF assms False]
  have some: "truthy ?l \<or> truthy ?r"
    using tl tr by (simp add: labels_present_iff)
  from control_scheme_total [OF ll] obtain s1 where cs: "control_scheme s ?l ?r = Inr s1"
    by blast
  have no_err: "\<not> (\<exists>e \<in> set (frame_hands r). classification (snd e) = [])"
    using assms by (auto simp: list_all_iff well_formed_hand_def)
  have run: "process_hands s r = Inr (apply_smoothing s1)"
    unfolding process_hands_frame assign_hands_char pick_None
    using False no_err cs by simp
  show ?thesis
    using run control_scheme_roles [OF cs some] tl tr
    by (auto simp: apply_smoothing_fields spec_assign_roles_def)
qed

theorem role_assignment_witness:
  "list_all well_formed_hand
     (frame_hands (results_of [detected_hand ''Left'' (hand_at 0.2 0.5),
                               detected_hand ''Right'' (hand_at 0.75 0.5)])) \<and>
   (\<exists>s'. process_hands example_state
            (results_of [detected_hand ''Left'' (hand_at 0.2 0.5),
                         detected_hand ''Right'' (hand_at 0.75 0.5)]) = Inr s' \<and>
          (control_hand s', rotation_hand s') = (Some ''left'', Some ''right''))"
proof -
  let ?r = "results_of [detected_hand ''Left'' (hand_at 0.2 0.5),
                        detected_hand ''Right'' (hand_at 0.75 0.5)]"
  have wf: "list_all well_formed_hand (frame_hands ?r)"
    by (simp add: frame_hands_results_of well_formed_hand_def detected_hand_def hand_at_def)
  have labs: "spec_assign_roles (labels_present ?r) = (Some ''left'', Some ''right'')"
    by (simp add: spec_assign_roles_def labels_present_def frame_hands_results_of
        hand_label_detected)
  show ?thesis
    using wf role_assignment [OF wf, of example_state] unfolding labs by simp
qed




text \<open>
  C4 (palm openness). For every hand of 21 keypoints \<open>calculate_palm_openness\<close> returns
  the clamped linear image of the average wrist-to-fingertip distance: the result lies in
  \<open>[0, 1]\<close>, is 0 for an average of at most 0.10, is 1 for an average of at least 0.40,
  is \<open>(avg - 0.10) / 0.30\<close> in between, and does not decrease when the average grows.
\<close>

theorem palm_openness:
  assumes "length hl = 21"
  shows "\<exists>v. calculate_palm_openness hl = Inr v \<and>
           v = openness_of_distance (avg_fingertip_distance hl) \<and>
           0 \<le> v \<and> v \<le> 1 \<and>
           (avg_fingertip_distance hl \<le> 0.10 \<longrightarrow> v = 0) \<and>
           (0.40 \<le> avg_fingertip_distance hl \<longrightarrow> v = 1) \<and>
           (0.10 \<le> avg_fingertip_distance hl \<and> avg_fingertip_distance hl \<le> 0.40 \<longrightarrow>
              v = (avg_fingertip_distance hl - 0.10) / 0.30) \<and>
           (\<forall>hl' v'. length hl' = 21 \<and> calculate_palm_openness hl' = Inr v' \<and>
                     avg_fingertip_distance hl \<le> avg_fingertip_distance hl' \<longrightarrow> v \<le> v')"
proof -
  let ?v = "openness_of_distance (avg_fingertip_distance hl)"
  have v: "calculate_palm_openness hl = Inr ?v"
    using assms by (simp add: calculate_palm_openness_ok)
  have mono: "?v \<le> v'"
    if "length hl' = 21" and "calculate_palm_openness hl' = Inr v'"
      and "avg_fingertip_distance hl \<le> avg_fingertip_distance hl'" for hl' v'
  proof -
    from that(1,2) have "v' = openness_of_distance (avg_fingertip_distance hl')"
      by (simp add: calculate_palm_openness_ok)
    with that(3) show ?thesis by (simp add: openness_mono)
  qed
  from v mono show ?thesis
    using openness_range [of "avg_fingertip_distance hl"]
      openness_low [of "avg_fingertip_distance hl"]
      openness_high [of "avg_fingertip_distance hl"]
      openness_linear [of "avg_fingertip_distance hl"]
    by blast
qed

theorem palm_openness_witness:
  "length (open_hand 0.5 0.5 0.25) = 21 \<and>
   avg_fingertip_distance (open_hand 0.5 0.5 0.25) = 0.25 \<and>
   calculate_palm_openness (open_hand 0.5 0.5 0.25) = Inr 0.5"
proof -
  have len: "length (open_hand 0.5 0.5 0.25) = 21"
    by (rule length_open_hand)
  have avg: "avg_fingertip_distance (open_hand 0.5 0.5 0.25) = 0.25"
    by (simp add: avg_open_hand)
  from palm_openness [OF len] have
    "calculate_palm_openness (open_hand 0.5 0.5 0.25) =
       Inr (openness_of_distance (avg_fingertip_distance (open_hand 0.5 0.5 0.25)))"
    by auto
  then have "calculate_palm_openness (open_hand 0.5 0.5 0.25) = Inr 0.5"
    unfolding avg by (simp add: openness_of_distance_def)
  with len avg show ?thesis by blast
qed

text \<open>
  C5 (rotation targets). Whenever a completed frame reports a non-empty hand labelled
  \<^verbatim>\<open>Right\<close>, the targets after the frame are
  \<open>target_rotation_y = (x - 0.5) * rotation_y_sensitivity\<close> and
  \<open>target_rotation_x = (0.5 - y) * rotation_x_sensitivity\<close> for the wrist \<open>(x, y)\<close> of the
  last such hand. The default sensitivities are 180 and 360, and with them a single Right
  hand whose wrist is at \<open>(0.75, 0.5)\<close> gives the targets 90 and 0.
\<close>

theorem rotation_targets:
  "(process_hands s r = Inr s' \<and> last_labelled ''Right'' (frame_hands r) = Some hl \<and> hl \<noteq> []
      \<longrightarrow> get_hand_position hl = Inr (lx (hl ! 0), ly (hl ! 0)) \<and>
          target_rotation_y s' = (lx (hl ! 0) - 0.5) * rotation_y_sensitivity s \<and>
          target_rotation_x s' = (0.5 - ly (hl ! 0)) * rotation_x_sensitivity s) \<and>
   rotation_x_sensitivity init_controller = 180 \<and>
   rotation_y_sensitivity init_controller = 360 \<and>
   (length hl = 21 \<and> lx (hl ! 0) = 0.75 \<and> ly (hl ! 0) = 0.5 \<and>
    rotation_x_sensitivity s = 180 \<and> rotation_y_sensitivity s = 360
      \<longrightarrow> (\<exists>s1. process_hands s (results_of [detected_hand ''Right'' hl]) = Inr s1 \<and>
            target_rotation_y s1 = 90 \<and> target_rotation_x s1 = 0))"
proof -
  have general: "get_hand_position h = Inr (lx (h ! 0), ly (h ! 0)) \<and>
      target_rotation_y t' = (lx (h ! 0) - 0.5) * rotation_y_sensitivity t \<and>
      target_rotation_x t' = (0.5 - ly (h ! 0)) * rotation_x_sensitivity t"
    if run: "process_hands t q = Inr t'"
      and right: "last_labelled ''Right'' (frame_hands q) = Some h" and ne: "h \<noteq> []"
    for t q t' h
  proof -
    from right have fne: "frame_hands q \<noteq> []"
      by (auto simp: last_labelled_def hands_labelled_def)
    from process_hands_Inr [OF run] fne obtain t1 where
      t': "t' = apply_smoothing t1" and
      cs: "control_scheme t (last_labelled ''Left'' (frame_hands q)) (Some h) = Inr t1"
      by (auto simp: right)
    have "truthy (Some h)" using ne by (simp add: truthy_def)
    from control_scheme_rotation_target [OF cs this] show ?thesis
      using ne by (simp add: t' apply_smoothing_fields get_hand_position_def getitem_def)
  qed
  have scenario: "\<exists>s1. process_hands s (results_of [detected_hand ''Right'' hl]) = Inr s1 \<and>
            target_rotation_y s1 = 90 \<and> target_rotation_x s1 = 0"
    if len: "length hl = 21" and x: "lx (hl ! 0) = 0.75" and y: "ly (hl ! 0) = 0.5"
      and sx: "rotation_x_sensitivity s = 180" and sy: "rotation_y_sensitivity s = 360"
  proof -
    let ?q = "results_of [detected_hand ''Right'' hl]"
    have wf: "list_all well_formed_hand (frame_hands ?q)"
      by (simp add: frame_hands_results_of well_formed_hand_def detected_hand_def len)
    from process_hands_total [OF wf] obtain s1 where run: "process_hands s ?q = Inr s1"
      by blast
    have right: "last_labelled ''Right'' (frame_hands ?q) = Some hl"
      by (simp add: frame_hands_results_of last_labelled_def hands_labelled_def
          hand_label_detected landmark_detected)
    have ne: "hl \<noteq> []" using len by auto
    from general [OF run right ne] show ?thesis
      using run by (simp add: x y sx sy)
  qed
  have defaults: "rotation_x_sensitivity init_controller = 180 \<and>
                  rotation_y_sensitivity init_controller = 360"
    by (simp add: init_controller_def)
  from general [of s r s' hl] scenario defaults show ?thesis
    by blast
qed

theorem rotation_targets_witness:
  "\<exists>s1. process_hands init_controller
           (results_of [detected_hand ''Right'' (hand_at 0.75 0.5)]) = Inr s1 \<and>
     last_labelled ''Right'' (frame_hands (results_of [detected_hand ''Right'' (hand_at 0.75 0.5)]))
       = Some (hand_at 0.75 0.5) \<and>
     hand_at 0.75 0.5 \<noteq> [] \<and> length (hand_at 0.75 0.5) = 21 \<and>
     lx (hand_at 0.75 0.5 ! 0) = 0.75 \<and> ly (hand_at 0.75 0.5 ! 0) = 0.5 \<and>
     target_rotation_y s1 = 90 \<and> target_rotation_x s1 = 0"
proof -
  let ?h = "hand_at 0.75 0.5"
  let ?q = "results_of [detected_hand ''Right'' ?h]"
  have wf: "list_all well_formed_hand (frame_hands ?q)"
    by (simp add: frame_hands_results_of well_formed_hand_def detected_hand_def length_hand_at)
  from process_hands_total [OF wf] obtain s1 where run: "process_hands init_controller ?q = Inr s1"
    by blast
  have right: "last_labelled ''Right'' (frame_hands ?q) = Some ?h"
    by (simp add: frame_hands_results_of last_labelled_def hands_labelled_def
        hand_label_detected landmark_detected)
  have ne: "?h \<noteq> []" and xy: "lx (?h ! 0) = 0.75" "ly (?h ! 0) = 0.5"
    by (simp_all add: hand_at_def)
  from rotation_targets [of init_controller ?q s1 ?h] run right ne xy
  have "target_rotation_y s1 = 90 \<and> target_rotation_x s1 = 0"
    by (simp add: init_controller_def)
  with run right ne xy show ?thesis
    by (simp add: length_hand_at)
qed

text \<open>
  C6, as stated, fails on doubles for bounds other than the program's: with
  \<open>scale_min\<close> and \<open>scale_max\<close> the doubles nearest to 0.3 and 0.9, openness 1 gives
  0.9000000000000001, which is neither \<open>scale_max\<close> nor within the bounds.
\<close>

theorem scale_target_exceeds_counterexample:
  "round64 (3 / 10) < round64 (9 / 10) \<and>
   target_scale_f64 (round64 (3 / 10)) (round64 (9 / 10)) 1 = 4053239664633447 / 2 ^ 52 \<and>
   target_scale_f64 (round64 (3 / 10)) (round64 (9 / 10)) 1 \<noteq> round64 (9 / 10) \<and>
   round64 (9 / 10) < target_scale_f64 (round64 (3 / 10)) (round64 (9 / 10)) 1"
  unfolding round64_03 round64_09 target_scale_f64_03_09 by simp

text \<open>
  C6 (amended). Whenever a completed frame reports a non-empty hand labelled
  \<^verbatim>\<open>Left\<close>, the scale target after the frame is
  \<open>scale_min + openness * (scale_max - scale_min)\<close> for the openness of the last such hand,
  which lies in \<open>[0, 1]\<close>. With the program's bounds 0.5 and 5.0, which every state
  reached from the initial one has, the target lies in \<open>[0.5, 5.0]\<close>, openness 0 gives
  0.5 and openness 1 gives 5.0; this also holds when each operation is rounded to a
  double, where openness 0 gives \<open>scale_min\<close> for any bounds that are doubles.
\<close>

theorem scale_target:
  "(process_hands s r = Inr s' \<and> last_labelled ''Left'' (frame_hands r) = Some hl \<and> hl \<noteq> [] \<longrightarrow>
      (\<exists>openness. calculate_palm_openness hl = Inr openness \<and>
         0 \<le> openness \<and> openness \<le> 1 \<and>
         target_scale s' = scale_min s + openness * (scale_max s - scale_min s) \<and>
         (scale_min s = 0.5 \<and> scale_max s = 5.0 \<longrightarrow>
            0.5 \<le> target_scale s' \<and> target_scale s' \<le> 5.0 \<and>
            (openness = 0 \<longrightarrow> target_scale s' = 0.5) \<and>
            (openness = 1 \<longrightarrow> target_scale s' = 5.0)))) \<and>
   (process_frames init_controller rs = Inr s0 \<longrightarrow> scale_min s0 = 0.5 \<and> scale_max s0 = 5.0) \<and>
   (0 \<le> v \<and> v \<le> 1 \<longrightarrow>
      0.5 \<le> target_scale_f64 0.5 5.0 v \<and> target_scale_f64 0.5 5.0 v \<le> 5.0) \<and>
   target_scale_f64 0.5 5.0 0 = 0.5 \<and>
   target_scale_f64 0.5 5.0 1 = 5.0 \<and>
   (double_value lo \<and> double_value hi \<longrightarrow> target_scale_f64 lo hi 0 = lo)"
proof -
  have frame: "\<exists>openness. calculate_palm_openness hl = Inr openness \<and>
         0 \<le> openness \<and> openness \<le> 1 \<and>
         target_scale s' = scale_min s + openness * (scale_max s - scale_min s) \<and>
         (scale_min s = 0.5 \<and> scale_max s = 5.0 \<longrightarrow>
            0.5 \<le> target_scale s' \<and> target_scale s' \<le> 5.0 \<and>
            (openness = 0 \<longrightarrow> target_scale s' = 0.5) \<and>
            (openness = 1 \<longrightarrow> target_scale s' = 5.0))"
    if run: "process_hands s r = Inr s'"
      and left: "last_labelled ''Left'' (frame_hands r) = Some hl" and ne: "hl \<noteq> []"
  proof -
    from left have fne: "frame_hands r \<noteq> []"
      by (auto simp: last_labelled_def hands_labelled_def)
    from process_hands_Inr [OF run] fne obtain s1 where
      s': "s' = apply_smoothing s1" and
      cs: "control_scheme s (Some hl) (last_labelled ''Right'' (frame_hands r)) = Inr s1"
      by (auto simp: left)
    have "truthy (Some hl)" using ne by (simp add: truthy_def)
    from control_scheme_scale_target [OF cs this] obtain w where
      w: "calculate_palm_openness hl = Inr w" and
      t: "target_scale s1 = scale_min s + w * (scale_max s - scale_min s)"
      by auto
    from calculate_palm_openness_Inr [OF w] have range: "0 \<le> w" "w \<le> 1"
      by (simp_all add: openness_range)
    have ts: "target_scale s' = scale_min s + w * (scale_max s - scale_min s)"
      by (simp add: s' apply_smoothing_fields t)
    have prog: "0.5 \<le> target_scale s' \<and> target_scale s' \<le> 5.0 \<and>
                (w = 0 \<longrightarrow> target_scale s' = 0.5) \<and>
                (w = 1 \<longrightarrow> target_scale s' = 5.0)"
      if "scale_min s = 0.5 \<and> scale_max s = 5.0"
    proof -
      from that have b: "scale_min s = 1 / 2" "scale_max s = 5"
        by simp_all
      have "(1 / 2 :: real) \<le> 5" by simp
      from target_in_range [OF range this] show ?thesis
        unfolding ts b by auto
    qed
    from w range ts prog show ?thesis by auto
  qed
  have reach: "scale_min s0 = 0.5 \<and> scale_max s0 = 5.0"
    if "process_frames init_controller rs = Inr s0"
    using that by (rule process_frames_bounds)
  have dbl: "0.5 \<le> target_scale_f64 0.5 5.0 v \<and> target_scale_f64 0.5 5.0 v \<le> 5.0"
    if "0 \<le> v \<and> v \<le> 1"
    using target_scale_f64_program_bounds [of v] that by simp
  have ends: "target_scale_f64 0.5 5.0 0 = 0.5" "target_scale_f64 0.5 5.0 1 = 5.0"
    using target_scale_f64_zero [of "1 / 2" 5] target_scale_f64_one
    by (simp_all add: round64_half)
  have zero: "target_scale_f64 lo hi 0 = lo" if "double_value lo \<and> double_value hi"
    using that by (intro target_scale_f64_zero) (simp add: double_value_def)
  from frame reach dbl ends zero show ?thesis
    by blast
qed

theorem scale_target_witness:
  "\<exists>s'. process_hands init_controller scenario_open = Inr s' \<and>
     last_labelled ''Left'' (frame_hands scenario_open) = Some fully_open_hand \<and>
     fully_open_hand \<noteq> [] \<and>
     calculate_palm_openness fully_open_hand = Inr 1 \<and>
     scale_min init_controller = 0.5 \<and> scale_max init_controller = 5.0 \<and>
     target_scale s' = 5.0 \<and>
     double_value (1 / 2) \<and> double_value 5 \<and>
     target_scale_f64 (1 / 2) 5 0 = 1 / 2 \<and>
     target_scale_f64 0.5 5.0 1 = 5.0"
proof -
  have wf: "list_all well_formed_hand (frame_hands scenario_open)"
    by (simp add: scenario_open_def frame_hands_results_of well_formed_hand_def
        detected_hand_def fully_open_hand_def length_open_hand)
  from process_hands_total [OF wf] obtain s' where
    run: "process_hands init_controller scenario_open = Inr s'"
    by blast
  have left: "last_labelled ''Left'' (frame_hands scenario_open) = Some fully_open_hand"
    by (simp add: scenario_open_def frame_hands_results_of last_labelled_def hands_labelled_def
        hand_label_detected landmark_detected)
  have ne: "fully_open_hand \<noteq> []"
    using length_open_hand [of "0.5" "0.5" "0.5"] by (auto simp: fully_open_hand_def)
  have bounds: "scale_min init_controller = 0.5 \<and> scale_max init_controller = 5.0"
    by (simp add: init_controller_def)
  note inst = scale_target [of init_controller scenario_open s' fully_open_hand "[]"
      init_controller 1 "1 / 2" 5]
  from inst run left ne obtain w where
    w: "calculate_palm_openness fully_open_hand = Inr w" and
    one: "scale_min init_controller = 0.5 \<and> scale_max init_controller = 5.0 \<longrightarrow>
          (w = 1 \<longrightarrow> target_scale s' = 5.0)"
    by blast
  from w fully_open_hand_openness have "w = 1" by simp
  with one bounds have ts: "target_scale s' = 5.0" by blast
  have dv: "double_value (1 / 2)" "double_value 5"
    by (simp_all add: double_value_def round64_half round64_5)
  from inst dv have z: "target_scale_f64 (1 / 2) 5 0 = 1 / 2"
    by blast
  from inst have o: "target_scale_f64 0.5 5.0 1 = 5.0"
    by blast
  from run left ne fully_open_hand_openness bounds ts dv z o show ?thesis
    by blast
qed

text \<open>
  C7, as stated, fails: a hand of 22 keypoints passes through \<open>calculate_palm_openness\<close>
  and a hand of a single keypoint through \<open>get_hand_position\<close>, both without a fault.
\<close>

theorem keypoint_count_fault_counterexample:
  "length (replicate 22 \<lparr> lx = 0, ly = 0, lz = 0 \<rparr>) \<noteq> 21 \<and>
   calculate_palm_openness (replicate 22 \<lparr> lx = 0, ly = 0, lz = 0 \<rparr>) = Inr 0 \<and>
   length [\<lparr> lx = 0.75, ly = 0.5, lz = 0 \<rparr>] \<noteq> 21 \<and>
   get_hand_position [\<lparr> lx = 0.75, ly = 0.5, lz = 0 \<rparr>] = Inr (0.75, 0.5)"
  by (simp add: calculate_palm_openness_ok avg_fingertip_distance_def fingertip_distance_def
      openness_of_distance_def get_hand_position_def getitem_def)

text \<open>
  C7 (amended). Neither operation checks the keypoint count; a fault arises only from an
  index out of range. \<open>calculate_palm_openness\<close> raises \<^verbatim>\<open>IndexError\<close> exactly when
  the hand has fewer than 21 keypoints, \<open>get_hand_position\<close> exactly when it has none, and
  a hand of 21 keypoints makes both return a value.
\<close>

theorem feature_extraction_faults:
  "(calculate_palm_openness hl = Inl IndexError \<longleftrightarrow> length hl < 21) \<and>
   (get_hand_position hl = Inl IndexError \<longleftrightarrow> hl = []) \<and>
   (length hl = 21 \<longrightarrow>
      calculate_palm_openness hl = Inr (openness_of_distance (avg_fingertip_distance hl)) \<and>
      get_hand_position hl = Inr (lx (hl ! 0), ly (hl ! 0)))"
proof -
  have a: "calculate_palm_openness hl = Inl IndexError \<longleftrightarrow> length hl < 21"
    using calculate_palm_openness_ok [of hl] calculate_palm_openness_err [of hl]
    by (cases "length hl < 21") simp_all
  have b: "get_hand_position hl = Inl IndexError \<longleftrightarrow> hl = []"
    by (simp add: get_hand_position_def getitem_def)
  have c: "get_hand_position hl = Inr (lx (hl ! 0), ly (hl ! 0))" if "length hl = 21"
    using that by (auto simp: get_hand_position_def getitem_def)
  from a b c show ?thesis
    by (simp add: calculate_palm_openness_ok)
qed

theorem feature_extraction_faults_witness:
  "length (hand_at 0.75 0.5) = 21 \<and>
   calculate_palm_openness (hand_at 0.75 0.5) = Inr 0 \<and>
   get_hand_position (hand_at 0.75 0.5) = Inr (0.75, 0.5)"
proof -
  have len: "length (hand_at 0.75 0.5) = 21"
    by (rule length_hand_at)
  have wrist: "lx (hand_at 0.75 0.5 ! 0) = 0.75" "ly (hand_at 0.75 0.5 ! 0) = 0.5"
    by (simp_all add: hand_at_def)
  from feature_extraction_faults [of "hand_at 0.75 0.5"] len
  have c: "calculate_palm_openness (hand_at 0.75 0.5) =
             Inr (openness_of_distance (avg_fingertip_distance (hand_at 0.75 0.5)))"
    and g: "get_hand_position (hand_at 0.75 0.5) =
             Inr (lx (hand_at 0.75 0.5 ! 0), ly (hand_at 0.75 0.5 ! 0))"
    by blast+
  have "openness_of_distance (avg_fingertip_distance (hand_at 0.75 0.5)) = 0"
    by (simp add: avg_hand_at openness_of_distance_def)
  with c have c0: "calculate_palm_openness (hand_at 0.75 0.5) = Inr 0"
    by simp
  from g have g0: "get_hand_position (hand_at 0.75 0.5) = Inr (0.75, 0.5)"
    unfolding wrist .
  from len c0 g0 show ?thesis by blast
qed

text \<open>
  C8 (duplicate handedness). When every reported hand carries a classification, the loop
  of \<open>process_hands\<close> ends with \<open>left_hand\<close> the keypoints of the last hand labelled
  \<^verbatim>\<open>Left\<close> and \<open>right_hand\<close> those of the last hand labelled \<^verbatim>\<open>Right\<close>, and
  the rest of the frame is computed from these two alone.
\<close>

theorem duplicate_handedness:
  assumes "\<forall>e \<in> set (frame_hands r). classification (snd e) \<noteq> []"
  shows "assign_hands (frame_hands r) None None =
           Inr (last_labelled ''Left'' (frame_hands r), last_labelled ''Right'' (frame_hands r)) \<and>
         process_hands s r =
           (case (if frame_hands r \<noteq> [] then
                    control_scheme s (last_labelled ''Left'' (frame_hands r))
                                     (last_labelled ''Right'' (frame_hands r))
                  else Inr (s\<lparr> control_hand := None, rotation_hand := None \<rparr>)) of
              Inl e \<Rightarrow> Inl e
            | Inr s1 \<Rightarrow> Inr (apply_smoothing s1))"
  using assms unfolding process_hands_frame assign_hands_char pick_None
  by simp

theorem duplicate_handedness_witness:
  "assign_hands (frame_hands (results_of [detected_hand ''Left'' (hand_at 0.1 0.1),
                                          detected_hand ''Right'' (hand_at 0.2 0.2),
                                          detected_hand ''Left'' (hand_at 0.3 0.3),
                                          detected_hand ''Right'' (hand_at 0.4 0.4)])) None None =
     Inr (Some (hand_at 0.3 0.3), Some (hand_at 0.4 0.4))"
proof -
  let ?q = "results_of [detected_hand ''Left'' (hand_at 0.1 0.1),
                        detected_hand ''Right'' (hand_at 0.2 0.2),
                        detected_hand ''Left'' (hand_at 0.3 0.3),
                        detected_hand ''Right'' (hand_at 0.4 0.4)]"
  have h: "\<forall>e \<in> set (frame_hands ?q). classification (snd e) \<noteq> []"
    by (simp add: frame_hands_results_of detected_hand_def)
  have l: "last_labelled ''Left'' (frame_hands ?q) = Some (hand_at 0.3 0.3)"
    by (simp add: frame_hands_results_of last_labelled_def hands_labelled_def
        hand_label_detected landmark_detected)
  have r: "last_labelled ''Right'' (frame_hands ?q) = Some (hand_at 0.4 0.4)"
    by (simp add: frame_hands_results_of last_labelled_def hands_labelled_def
        hand_label_detected landmark_detected)
  from duplicate_handedness [OF h, of init_controller] show ?thesis
    unfolding l r by blast
qed

text \<open>
  C9 (bounded scale). The initial state has \<open>scale\<close> and \<open>target_scale\<close> within
  \<open>[scale_min, scale_max]\<close>; every state reached from it by completed frames has the
  bounds 0.5 and 5.0 and both values within them; and a completed frame preserves the
  bound from any state whose smoothing factor lies strictly between 0 and 1.
\<close>

theorem bounded_scale:
  "scale_bounded init_controller \<and>
   (process_frames init_controller rs = Inr s \<longrightarrow>
      scale_min s = 0.5 \<and> scale_max s = 5.0 \<and>
      scale_min s \<le> scale s \<and> scale s \<le> scale_max s \<and>
      scale_min s \<le> target_scale s \<and> target_scale s \<le> scale_max s) \<and>
   (scale_bounded s0 \<and> 0 < smooth_factor s0 \<and> smooth_factor s0 < 1 \<and>
    process_hands s0 r = Inr s1 \<longrightarrow> scale_bounded s1)"
proof -
  have init: "scale_bounded init_controller"
    and f: "0 \<le> smooth_factor init_controller" "smooth_factor init_controller \<le> 1"
    by (simp_all add: scale_bounded_def init_controller_def)
  have reach: "scale_min s = 0.5 \<and> scale_max s = 5.0 \<and>
      scale_min s \<le> scale s \<and> scale s \<le> scale_max s \<and>
      scale_min s \<le> target_scale s \<and> target_scale s \<le> scale_max s"
    if "process_frames init_controller rs = Inr s"
  proof -
    from process_frames_scale_bounded [OF that init f]
    have "scale_bounded s" and "scale_min s = scale_min init_controller"
      and "scale_max s = scale_max init_controller"
      by simp_all
    then show ?thesis
      by (simp add: scale_bounded_def init_controller_def)
  qed
  have step: "scale_bounded s1"
    if "scale_bounded s0" "0 < smooth_factor s0" "smooth_factor s0 < 1"
      "process_hands s0 r = Inr s1"
    using process_hands_scale_bounded [OF that(4) that(1)] that(2,3) by simp
  from init reach step show ?thesis by blast
qed

theorem bounded_scale_witness:
  "\<exists>s s1.
     process_frames init_controller
       [results_of [detected_hand ''Left'' (open_hand 0.5 0.5 0.25)], results_of []] = Inr s \<and>
     process_hands init_controller
       (results_of [detected_hand ''Left'' (open_hand 0.5 0.5 0.25)]) = Inr s1 \<and>
     scale_bounded init_controller \<and>
     0 < smooth_factor init_controller \<and> smooth_factor init_controller < 1 \<and>
     scale_bounded s1 \<and>
     0.5 \<le> scale s \<and> scale s \<le> 5.0 \<and> 0.5 \<le> target_scale s \<and> target_scale s \<le> 5.0"
proof -
  let ?q = "results_of [detected_hand ''Left'' (open_hand 0.5 0.5 0.25)]"
  have wf: "list_all well_formed_hand (frame_hands ?q)"
    by (simp add: frame_hands_results_of well_formed_hand_def detected_hand_def length_open_hand)
  then have "\<forall>r \<in> set [?q, results_of []]. list_all well_formed_hand (frame_hands r)"
    by (simp add: frame_hands_results_of)
  from process_frames_total [OF this] obtain s where
    run: "process_frames init_controller [?q, results_of []] = Inr s"
    by blast
  from process_hands_total [OF wf] obtain s1 where
    step: "process_hands init_controller ?q = Inr s1"
    by blast
  have f: "0 < smooth_factor init_controller" "smooth_factor init_controller < 1"
    by (simp_all add: init_controller_def)
  from bounded_scale [of "[?q, results_of []]" s init_controller ?q s1] run step f
  have "scale_bounded init_controller \<and> scale_bounded s1 \<and>
        0.5 \<le> scale s \<and> scale s \<le> 5.0 \<and> 0.5 \<le> target_scale s \<and> target_scale s \<le> 5.0"
    by auto
  with run step f show ?thesis by blast
qed

text \<open>
  C10 (fixed point of smoothing). \<open>smooth_value c c f = c\<close> for every \<open>c\<close> and \<open>f\<close>; in
  the initial state every current value equals its target; and any number of frames
  without hands, processed from the initial state, leaves \<open>scale\<close>, \<open>rotation_x\<close> and
  \<open>rotation_y\<close> at 2.0, 20 and 30.
\<close>

theorem smoothing_fixed_point:
  "smooth_value c c f = c \<and>
   scale init_controller = target_scale init_controller \<and>
   rotation_x init_controller = target_rotation_x init_controller \<and>
   rotation_y init_controller = target_rotation_y init_controller \<and>
   ((\<forall>r \<in> set rs. frame_hands r = []) \<longrightarrow>
      (\<exists>s'. process_frames init_controller rs = Inr s' \<and>
            scale s' = 2.0 \<and> rotation_x s' = 20 \<and> rotation_y s' = 30 \<and>
            scale s' = scale init_controller \<and>
            rotation_x s' = rotation_x init_controller \<and>
            rotation_y s' = rotation_y init_controller))"
proof -
  have run: "process_frames init_controller rs = Inr init_controller"
    if "\<forall>r \<in> set rs. frame_hands r = []"
    using that by (induction rs) (simp_all add: process_hands_init_no_hands)
  have vals: "scale init_controller = 2.0 \<and> rotation_x init_controller = 20 \<and>
              rotation_y init_controller = 30 \<and>
              scale init_controller = target_scale init_controller \<and>
              rotation_x init_controller = target_rotation_x init_controller \<and>
              rotation_y init_controller = target_rotation_y init_controller"
    by (simp add: init_controller_def)
  have fp: "smooth_value c c f = c"
    by (simp add: smooth_value_def)
  from run vals fp show ?thesis
    by auto
qed

theorem smoothing_fixed_point_witness:
  "\<exists>s'. process_frames init_controller [results_of [], results_of [], results_of []] = Inr s' \<and>
        scale s' = 2.0 \<and> rotation_x s' = 20 \<and> rotation_y s' = 30"
proof -
  have h: "\<forall>r \<in> set [results_of [], results_of [], results_of []]. frame_hands r = []"
    by (simp add: frame_hands_results_of)
  from smoothing_fixed_point [of 0 0 "[results_of [], results_of [], results_of []]"] h
  show ?thesis by blast
qed

end
